theory Spec2Isabelle
  imports Complex_Main "HOL-Library.Sublist"
begin

section \<open>The API server of the dashboard\<close>

text \<open>
  The development follows the asynchronous API server (the file that reads
  \<^verbatim>\<open>API_BIND_ADDRESS\<close>, wraps every aggregation in \<^verbatim>\<open>withCache\<close> and serves
  \<^verbatim>\<open>/api/health\<close>). JavaScript numbers are modelled by \<^typ>\<open>int\<close> where the code
  handles counters and clock readings and by \<^typ>\<open>real\<close> where it handles measurements;
  rounding of IEEE doubles is not modelled. A thrown exception or a rejected promise is
  the left injection of a sum, carrying the text that \<^verbatim>\<open>formatError\<close> would print.
\<close>

subsection \<open>The request-coalescing cache\<close>

text \<open>
  \<^verbatim>\<open>cacheStore\<close> maps a key to an entry \<^verbatim>\<open>{value, timestamp, inFlight}\<close>. A value of
  \<^verbatim>\<open>undefined\<close> is \<open>None\<close>; \<^verbatim>\<open>inFlight\<close> is \<^verbatim>\<open>null\<close> or the promise of the running
  load, and promises are named by numbers in the order of their creation. Entries are
  replaced by \<^verbatim>\<open>cacheStore.set\<close> and never mutated, so the \<^verbatim>\<open>existing\<close> that a load
  captured keeps the contents it had when the call was made.
\<close>

type_synonym key = string
type_synonym promise = nat

record 'v entry =
  entry_value :: "'v option"
  timestamp :: int
  inFlight :: "promise option"

text \<open>
  JavaScript runs \<^verbatim>\<open>withCache\<close> without interruption up to \<^verbatim>\<open>await loader()\<close>: the
  loader has been invoked, and the rest of the inner function is suspended until the
  loader settles. A suspended load remembers the variables it closes over. The cache
  state holds the store, the suspended loads, the log of loader invocations (one key per
  invocation) and the next unused promise. The loader itself is outside the model, and
  every loader of the server invokes \<^verbatim>\<open>withCache\<close> for other keys only.
\<close>

record 'v load =
  loadKey :: key
  existing :: "'v entry option"
  allowStaleOnError :: bool

record 'v cache =
  cacheStore :: "key \<Rightarrow> 'v entry option"
  suspended :: "promise \<Rightarrow> 'v load option"
  loaderCalls :: "key list"
  nextPromise :: promise

datatype 'v outcome = Returned 'v | Awaits promise

definition emptyCache :: "'v cache" where
  "emptyCache = \<lparr>cacheStore = (\<lambda>k. None), suspended = (\<lambda>p. None), loaderCalls = [],
                  nextPromise = 0\<rparr>"

text \<open>
  \<^verbatim>\<open>existing?.value\<close>, \<^verbatim>\<open>existing?.timestamp || 0\<close> and \<^verbatim>\<open>existing?.inFlight\<close>, and the
  guard of the first \<^verbatim>\<open>if\<close>: the entry exists, its value is not \<^verbatim>\<open>undefined\<close> and it
  is younger than \<^verbatim>\<open>ttlMs\<close>.
\<close>

definition prevValue :: "'v entry option \<Rightarrow> 'v option" where
  "prevValue ex = (case ex of None \<Rightarrow> None | Some e \<Rightarrow> entry_value e)"

definition prevTimestamp :: "'v entry option \<Rightarrow> int" where
  "prevTimestamp ex = (case ex of None \<Rightarrow> 0 | Some e \<Rightarrow> timestamp e)"

definition prevInFlight :: "'v entry option \<Rightarrow> promise option" where
  "prevInFlight ex = (case ex of None \<Rightarrow> None | Some e \<Rightarrow> inFlight e)"

definition freshValue :: "'v entry option \<Rightarrow> int \<Rightarrow> int \<Rightarrow> 'v option" where
  "freshValue ex ttlMs now =
     (case ex of
        None \<Rightarrow> None
      | Some e \<Rightarrow>
          (case entry_value e of
             None \<Rightarrow> None
           | Some v \<Rightarrow> if now - timestamp e < ttlMs then Some v else None))"

text \<open>
  \<^verbatim>\<open>withCache(key, ttlMs, loader, {allowStaleOnError})\<close> at the clock reading \<open>now\<close>.
  The caller's promise is fulfilled with the fresh value at once (\<open>Returned\<close>), or it
  follows the promise of a load (\<open>Awaits\<close>): the one in flight, or a new one, whose
  creation invokes the loader.
\<close>

definition withCache :: "key \<Rightarrow> int \<Rightarrow> int \<Rightarrow> bool \<Rightarrow> 'v cache \<Rightarrow> 'v outcome \<times> 'v cache" where
  "withCache k ttlMs now allowStale s =
     (let ex = cacheStore s k in
      case freshValue ex ttlMs now of
        Some v \<Rightarrow> (Returned v, s)
      | None \<Rightarrow>
          (case prevInFlight ex of
             Some p \<Rightarrow> (Awaits p, s)
           | None \<Rightarrow>
               let p = nextPromise s in
               (Awaits p,
                s\<lparr>cacheStore := (cacheStore s)
                     (k \<mapsto> \<lparr>entry_value = prevValue ex, timestamp = prevTimestamp ex,
                            inFlight = Some p\<rparr>),
                  suspended := (suspended s)
                     (p \<mapsto> \<lparr>loadKey = k, existing = ex, allowStaleOnError = allowStale\<rparr>),
                  loaderCalls := loaderCalls s @ [k],
                  nextPromise := Suc p\<rparr>)))"

text \<open>
  The suspended load \<open>p\<close> resumes when its loader settles, fulfilled with a value
  (\<open>Inr\<close>) or rejected with an error (\<open>Inl\<close>), at the clock reading \<open>now\<close>. The first
  component is how promise \<open>p\<close> settles in turn; it is \<open>None\<close> when no load \<open>p\<close> is
  suspended, and then nothing happens.
\<close>

definition settle ::
  "promise \<Rightarrow> string + 'v option \<Rightarrow> int \<Rightarrow> 'v cache \<Rightarrow> (string + 'v option) option \<times> 'v cache" where
  "settle p result now s =
     (case suspended s p of
        None \<Rightarrow> (None, s)
      | Some l \<Rightarrow>
          let k = loadKey l;
              ex = existing l;
              resumed = s\<lparr>suspended := (suspended s)(p := None)\<rparr>
          in (case result of
                Inr v \<Rightarrow>
                  (Some (Inr v),
                   resumed\<lparr>cacheStore := (cacheStore s)
                     (k \<mapsto> \<lparr>entry_value = v, timestamp = now, inFlight = None\<rparr>)\<rparr>)
              | Inl err \<Rightarrow>
                  if allowStaleOnError l \<and> ex \<noteq> None \<and> prevValue ex \<noteq> None
                  then (Some (Inr (prevValue ex)),
                        resumed\<lparr>cacheStore := (cacheStore s)
                          (k \<mapsto> \<lparr>entry_value = prevValue ex, timestamp = prevTimestamp ex,
                                 inFlight = None\<rparr>)\<rparr>)
                  else (Some (Inl err),
                        resumed\<lparr>cacheStore := (cacheStore s)
                          (k \<mapsto> \<lparr>entry_value = prevValue ex, timestamp = prevTimestamp ex,
                                 inFlight = None\<rparr>)\<rparr>)))"

text \<open>
  The event loop interleaves calls and settlements in any order. \<open>run\<close> plays a
  sequence of them; \<open>settles p\<close> recognises the settlement of load \<open>p\<close>.
\<close>

datatype 'v event =
    Call key int int bool
  | Settle promise "string + 'v option" int

fun step :: "'v event \<Rightarrow> 'v cache \<Rightarrow> 'v cache" where
  "step (Call k ttlMs now allowStale) s = snd (withCache k ttlMs now allowStale s)"
| "step (Settle p result now) s = snd (settle p result now s)"

definition run :: "'v event list \<Rightarrow> 'v cache \<Rightarrow> 'v cache" where
  "run evs s = fold step evs s"

fun settles :: "promise \<Rightarrow> 'v event \<Rightarrow> bool" where
  "settles p (Call k ttlMs now allowStale) = False"
| "settles p (Settle q result now) = (q = p)"

text \<open>
  The invariant of the store: an entry names a load in flight exactly when that load is
  suspended for the entry's key. \<open>inWindow\<close> describes the states between the start of
  load \<open>p\<close> for key \<open>k\<close> and its settlement: the entry, the suspended load and the
  number of loader invocations for \<open>k\<close> stay as they were when the load began.
\<close>

definition coalesced :: "'v cache \<Rightarrow> bool" where
  "coalesced s \<longleftrightarrow>
     (\<forall>k e p. cacheStore s k = Some e \<and> inFlight e = Some p
        \<longrightarrow> (\<exists>l. suspended s p = Some l \<and> loadKey l = k))
   \<and> (\<forall>p l. suspended s p = Some l
        \<longrightarrow> p < nextPromise s
          \<and> (\<exists>e. cacheStore s (loadKey l) = Some e \<and> inFlight e = Some p))"

definition inWindow :: "key \<Rightarrow> promise \<Rightarrow> 'v load \<Rightarrow> 'v entry \<Rightarrow> nat \<Rightarrow> 'v cache \<Rightarrow> bool" where
  "inWindow k p l e c s \<longleftrightarrow>
     coalesced s \<and> cacheStore s k = Some e \<and> inFlight e = Some p
   \<and> suspended s p = Some l \<and> loadKey l = k \<and> count_list (loaderCalls s) k = c"

subsection \<open>The historical store reader\<close>

text \<open>
  \<^verbatim>\<open>queryDb\<close> runs the \<^verbatim>\<open>sqlite3\<close> command line tool and parses its JSON output. The
  outcome of that external run is the first argument: the parsed rows, or the error of a
  failed run or a failed parse. Errors are swallowed unless \<^verbatim>\<open>throwOnError\<close> is set.
\<close>

definition queryDb :: "string + 'r list \<Rightarrow> bool \<Rightarrow> string + 'r list" where
  "queryDb raw throwOnError =
     (case raw of
        Inr rows \<Rightarrow> Inr rows
      | Inl e \<Rightarrow> if throwOnError then Inl e else Inr [])"

subsection \<open>The 24 hour token delta\<close>

record statsRow =
  row_timestamp :: int
  row_sessions :: int
  row_tokens :: int

record tokens24 =
  tokens24h :: int
  samples :: nat
  history :: "statsRow list option"

text \<open>
  The loader of \<^verbatim>\<open>get24HourTokens\<close>. \<open>now\<close> is the reading of \<^verbatim>\<open>Date.now()\<close>, and
  \<open>sqlite since\<close> is the outcome of the query for the rows of \<^verbatim>\<open>openclaw_stats\<close> newer
  than \<open>since\<close>, ordered by timestamp. The result for no rows has no \<^verbatim>\<open>history\<close> field.
\<close>

definition get24HourTokens :: "int \<Rightarrow> (int \<Rightarrow> string + statsRow list) \<Rightarrow> string + tokens24" where
  "get24HourTokens now sqlite =
     (let since = now div 1000 - 86400 in
      case queryDb (sqlite since) False of
        Inl e \<Rightarrow> Inl e
      | Inr rows \<Rightarrow>
          (case rows of
             [] \<Rightarrow> Inr \<lparr>tokens24h = 0, samples = 0, history = None\<rparr>
           | first # _ \<Rightarrow>
               let lst = last rows;
                   tokenDelta = row_tokens lst - row_tokens first
               in Inr \<lparr>tokens24h = max 0 tokenDelta, samples = length rows,
                        history = Some rows\<rparr>))"


subsection \<open>The status handler\<close>

text \<open>
  The JSON document printed by the status command of the command line tool, decoded:
  a field that is absent or \<^verbatim>\<open>null\<close> is \<open>None\<close>. \<open>recent\<close> is \<^verbatim>\<open>sessions.recent || []\<close>
  and \<open>channelSummary\<close> is \<^verbatim>\<open>status.channelSummary || []\<close>.
\<close>

record session =
  session_key :: "string option"
  totalTokens :: "int option"
  session_model :: "string option"
  percentUsed :: "int option"
  contextTokens :: "int option"
  remainingTokens :: "int option"

record statusJson =
  sessions_count :: "int option"
  recent :: "session list"
  defaults_model :: "string option"
  memory_chunks :: "int option"
  memory_files :: "int option"
  connectLatencyMs :: "int option"
  reachable :: bool
  heartbeat_every :: "string option"
  channelSummary :: "string list"

text \<open>
  The object the handler answers with. The three shapes the code builds differ in the
  fields they carry; a field the object does not have is \<open>None\<close>.
\<close>

record stats =
  installed :: bool
  status :: string
  sessions :: "int option"
  tokens :: "int option"
  stats_tokens24h :: "int option"
  lastUpdated :: "int option"
  model :: "string option"
  contextUsed :: "int option"
  contextTotal :: "int option"
  contextRemaining :: "int option"
  memoryChunks :: "int option"
  memoryFiles :: "int option"
  gatewayLatency :: "int option"
  gatewayStatus :: "string option"
  heartbeatInterval :: "string option"
  channels :: "string list option"
  cached :: "bool option"
  stats_error :: "string option"

text \<open>\<^verbatim>\<open>x || d\<close> on a number and on a string: \<^verbatim>\<open>0\<close>, the empty string and an absent value are falsy.\<close>

definition numOr :: "int option \<Rightarrow> int \<Rightarrow> int" where
  "numOr x d = (case x of None \<Rightarrow> d | Some n \<Rightarrow> if n = 0 then d else n)"

definition truthyStr :: "string option \<Rightarrow> string option" where
  "truthyStr x = (case x of None \<Rightarrow> None | Some s \<Rightarrow> if s = [] then None else Some s)"

definition truthyNum :: "int option \<Rightarrow> int option" where
  "truthyNum x = (case x of None \<Rightarrow> None | Some n \<Rightarrow> if n = 0 then None else Some n)"

definition strOr :: "string option \<Rightarrow> string \<Rightarrow> string" where
  "strOr x d = (case truthyStr x of None \<Rightarrow> d | Some s \<Rightarrow> s)"

definition emptySession :: session where
  "emptySession = \<lparr>session_key = None, totalTokens = None, session_model = None,
                    percentUsed = None, contextTokens = None, remainingTokens = None\<rparr>"

text \<open>
  \<^verbatim>\<open>recent.find(s => s.key === 'agent:main:main') || recent[0] || {}\<close>.
\<close>

definition mainSession :: "session list \<Rightarrow> session" where
  "mainSession rs =
     (case find (\<lambda>s. session_key s = Some ''agent:main:main'') rs of
        Some s \<Rightarrow> s
      | None \<Rightarrow> (case rs of [] \<Rightarrow> emptySession | s # _ \<Rightarrow> s))"

text \<open>The body of the \<^verbatim>\<open>try\<close> block, once the status document and the 24 hour delta are there.\<close>

definition runningStats :: "statusJson \<Rightarrow> tokens24 \<Rightarrow> int \<Rightarrow> stats" where
  "runningStats st stats24h now =
     (let totalTokens = foldl (\<lambda>sum s. sum + numOr (totalTokens s) 0) 0 (take 10 (recent st));
          main = mainSession (recent st)
      in \<lparr>installed = True,
          status = ''running'',
          sessions = Some (numOr (sessions_count st) 0),
          tokens = Some totalTokens,
          stats_tokens24h = Some (tokens24h stats24h),
          lastUpdated = Some now,
          model = Some (strOr (session_model main) (strOr (defaults_model st) ''unknown'')),
          contextUsed = Some (numOr (percentUsed main) 0),
          contextTotal = Some (numOr (contextTokens main) 200000),
          contextRemaining = Some (numOr (remainingTokens main) 0),
          memoryChunks = memory_chunks st,
          memoryFiles = memory_files st,
          gatewayLatency = truthyNum (connectLatencyMs st),
          gatewayStatus = Some (if reachable st then ''connected'' else ''disconnected''),
          heartbeatInterval = truthyStr (heartbeat_every st),
          channels = Some (channelSummary st),
          cached = None,
          stats_error = None\<rparr>)"

text \<open>
  The loader of \<^verbatim>\<open>getOpenClawStats\<close>. Its arguments are the variable
  \<^verbatim>\<open>lastKnownOpenClaw\<close>, the outcome of \<^verbatim>\<open>getOpenClawStatusJson()\<close>, the result of
  \<^verbatim>\<open>get24HourTokens()\<close> (which never rejects), the outcome of the query for the newest row
  of \<^verbatim>\<open>openclaw_stats\<close>, the path that \<^verbatim>\<open>getOpenclawPath()\<close> resolved (\<open>None\<close> for
  \<^verbatim>\<open>null\<close>) and the clock. It returns the answer and the new \<^verbatim>\<open>lastKnownOpenClaw\<close>.
\<close>

definition getOpenClawStats ::
  "stats option \<Rightarrow> string + statusJson \<Rightarrow> tokens24 \<Rightarrow> string + statsRow list \<Rightarrow> string option
     \<Rightarrow> int \<Rightarrow> stats \<times> stats option" where
  "getOpenClawStats lastKnownOpenClaw statusRaw stats24h latestRaw openclawPath now =
     (case statusRaw of
        Inr st \<Rightarrow>
          (let s = runningStats st stats24h now in (s, Some s))
      | Inl e \<Rightarrow>
          (case lastKnownOpenClaw of
             Some known \<Rightarrow>
               (known\<lparr>status := ''down'', lastUpdated := lastUpdated known, cached := Some True\<rparr>,
                lastKnownOpenClaw)
           | None \<Rightarrow>
               (case queryDb latestRaw False of
                  Inr (lst # _) \<Rightarrow>
                    (\<lparr>installed = True,
                      status = ''down'',
                      sessions = Some (row_sessions lst),
                      tokens = Some (row_tokens lst),
                      stats_tokens24h = Some (tokens24h stats24h),
                      lastUpdated = Some (row_timestamp lst * 1000),
                      model = None, contextUsed = None, contextTotal = None,
                      contextRemaining = None, memoryChunks = None, memoryFiles = None,
                      gatewayLatency = None, gatewayStatus = None, heartbeatInterval = None,
                      channels = None,
                      cached = Some True,
                      stats_error = None\<rparr>,
                     lastKnownOpenClaw)
                | _ \<Rightarrow>
                    (\<lparr>installed = (openclawPath \<noteq> None),
                      status = ''unknown'',
                      sessions = None, tokens = None, stats_tokens24h = None,
                      lastUpdated = None,
                      model = None, contextUsed = None, contextTotal = None,
                      contextRemaining = None, memoryChunks = None, memoryFiles = None,
                      gatewayLatency = None, gatewayStatus = None, heartbeatInterval = None,
                      channels = None,
                      cached = None,
                      stats_error = Some e\<rparr>,
                     lastKnownOpenClaw))))"

subsection \<open>The history handler\<close>

text \<open>
  The table \<^verbatim>\<open>ranges\<close>; \<^verbatim>\<open>Object.prototype.hasOwnProperty.call(ranges, range)\<close> holds
  exactly for its five keys.
\<close>

definition ranges :: "(string \<times> int) list" where
  "ranges = [(''1h'', 3600), (''8h'', 28800), (''24h'', 86400), (''7d'', 604800),
             (''30d'', 2592000)]"


record 'r historyResult =
  hist_range :: string
  hist_count :: nat
  metrics :: "'r list"



text \<open>\<^verbatim>\<open>url.searchParams.get('range') || '1h'\<close>, as the front door calls the handler.\<close>

definition rangeParam :: "string option \<Rightarrow> string" where
  "rangeParam q = strOr q ''1h''"

text \<open>
  The older, synchronous copy of the server (\<^verbatim>\<open>src/api-server.js\<close>) looks the range up
  with \<^verbatim>\<open>ranges[range] || 3600\<close> and echoes the range it was given. A name inherited from
  \<^verbatim>\<open>Object.prototype\<close> is found there too, and is not a number.
\<close>

definition objectPrototypeNames :: "string list" where
  "objectPrototypeNames =
     [''constructor'', ''__proto__'', ''hasOwnProperty'', ''isPrototypeOf'',
      ''propertyIsEnumerable'', ''toLocaleString'', ''toString'', ''valueOf'',
      ''__defineGetter__'', ''__defineSetter__'', ''__lookupGetter__'', ''__lookupSetter__'']"

definition getHistory_sync ::
  "string \<Rightarrow> int \<Rightarrow> (int option \<Rightarrow> string + 'r list) \<Rightarrow> 'r historyResult" where
  "getHistory_sync r now sqlite =
     (let seconds = (case map_of ranges r of
                       Some sec \<Rightarrow> Some sec
                     | None \<Rightarrow> if r \<in> set objectPrototypeNames then None else Some 3600);
          since = map_option (\<lambda>sec. now div 1000 - sec) seconds;
          rows = (case queryDb (sqlite since) False of Inl e \<Rightarrow> [] | Inr rows \<Rightarrow> rows)
      in \<lparr>hist_range = r, hist_count = length rows, metrics = rows\<rparr>)"

subsection \<open>Process insights\<close>

text \<open>
  An element of the process list of the metrics agent, decoded: \<^verbatim>\<open>name\<close>,
  \<^verbatim>\<open>cpu_percent\<close> and \<^verbatim>\<open>memory_info.rss\<close>, each possibly absent.
\<close>

record glancesProc =
  glances_name :: "string option"
  cpu_percent :: "real option"
  rss :: "real option"

record proc =
  proc_name :: string
  proc_cpu :: real
  proc_ram_mb :: real

text \<open>A row of the 24 hour averages, as the query groups them by name.\<close>

record avgRow =
  avg_row_name :: string
  avg_row_cpu :: real
  avg_row_ram :: real
  avg_row_samples :: nat

record hist =
  hist_cpu :: real
  hist_ram :: real
  hist_samples :: nat

record insight =
  name :: string
  cpu :: real
  ram_mb :: real
  avg_cpu :: "real option"
  avg_ram :: "real option"
  anomaly :: "string option"

record 'i insightsResult =
  processes :: "'i list"
  anomalies :: "'i list"
  hasHistory :: bool

definition realOr :: "real option \<Rightarrow> real \<Rightarrow> real" where
  "realOr x d = (case x of None \<Rightarrow> d | Some n \<Rightarrow> if n = 0 then d else n)"

text \<open>\<^verbatim>\<open>Math.round\<close> rounds to the nearest integer, a half upwards.\<close>

definition mathRound :: "real \<Rightarrow> real" where
  "mathRound x = of_int \<lfloor>x + 1 / 2\<rfloor>"

text \<open>
  The loop over the ten busiest processes: the list is sorted by falling
  \<^verbatim>\<open>cpu_percent || 0\<close> (the sort of JavaScript is stable), cut to ten, and a process whose
  name was seen before is skipped.
\<close>

fun pushUnseen :: "string list \<Rightarrow> glancesProc list \<Rightarrow> proc list" where
  "pushUnseen seen [] = []"
| "pushUnseen seen (p # ps) =
     (let nm = strOr (glances_name p) ''unknown'' in
      if nm \<in> set seen then pushUnseen seen ps
      else \<lparr>proc_name = nm, proc_cpu = realOr (cpu_percent p) 0,
            proc_ram_mb = realOr (rss p) 0 / (1024 * 1024)\<rparr>
           # pushUnseen (nm # seen) ps)"

definition currentProcs :: "string + glancesProc list \<Rightarrow> proc list" where
  "currentProcs glancesRaw =
     (case glancesRaw of
        Inl e \<Rightarrow> []
      | Inr procs \<Rightarrow>
          pushUnseen [] (take 10 (sort_key (\<lambda>p. - realOr (cpu_percent p) 0) procs)))"

text \<open>
  \<^verbatim>\<open>avgMap\<close>: a later row for a name replaces an earlier one. Process names are taken
  not to be names that every JavaScript object inherits.
\<close>

definition avgMap :: "avgRow list \<Rightarrow> string \<Rightarrow> hist option" where
  "avgMap rows =
     fold (\<lambda>row m. m(avg_row_name row \<mapsto>
             \<lparr>hist_cpu = avg_row_cpu row, hist_ram = avg_row_ram row,
              hist_samples = avg_row_samples row\<rparr>)) rows (\<lambda>n. None)"

text \<open>The function mapped over the current processes.\<close>

definition toInsight :: "(string \<Rightarrow> hist option) \<Rightarrow> proc \<Rightarrow> insight" where
  "toInsight m p =
     (let h = m (proc_name p);
          i = \<lparr>name = proc_name p,
               cpu = mathRound (proc_cpu p * 10) / 10,
               ram_mb = mathRound (proc_ram_mb p),
               avg_cpu = map_option (\<lambda>h. mathRound (hist_cpu h * 10) / 10) h,
               avg_ram = map_option (\<lambda>h. mathRound (hist_ram h)) h,
               anomaly = None\<rparr>
      in case h of
           None \<Rightarrow> i
         | Some h \<Rightarrow>
             if hist_cpu h > 1 \<and> proc_cpu p > hist_cpu h * 2
             then i\<lparr>anomaly := Some ''cpu_high''\<rparr>
             else if hist_ram h > 50 \<and> proc_ram_mb p > hist_ram h * 1.5
             then i\<lparr>anomaly := Some ''ram_high''\<rparr>
             else i)"

definition insights :: "string + glancesProc list \<Rightarrow> avgRow list \<Rightarrow> insight list" where
  "insights glancesRaw historicalAvg =
     map (toInsight (avgMap historicalAvg)) (currentProcs glancesRaw)"

text \<open>\<^verbatim>\<open>i => i.anomaly\<close>: the anomaly is neither \<^verbatim>\<open>null\<close> nor the empty string.\<close>

definition flagged :: "insight \<Rightarrow> bool" where
  "flagged i = (truthyStr (anomaly i) \<noteq> None)"

text \<open>
  The loader of \<^verbatim>\<open>getProcessInsights\<close>, from the outcome of the request to the metrics
  agent and the outcome of the query for the averages of the names with more than five
  samples in the last 24 hours.
\<close>

definition getProcessInsights ::
  "string + glancesProc list \<Rightarrow> string + avgRow list \<Rightarrow> string + insight insightsResult" where
  "getProcessInsights glancesRaw avgRaw =
     (case queryDb avgRaw False of
        Inl e \<Rightarrow> Inl e
      | Inr historicalAvg \<Rightarrow>
          (let ins = insights glancesRaw historicalAvg in
           Inr \<lparr>processes = take 8 ins,
                anomalies = filter flagged ins,
                hasHistory = (length historicalAvg > 0)\<rparr>))"

subsection \<open>The origin allow-list\<close>

text \<open>
  What the front door reads from a request: the method, the path of the parsed URL, the
  \<^verbatim>\<open>range\<close> parameter of the query, and the \<^verbatim>\<open>Origin\<close> and \<^verbatim>\<open>Host\<close> headers.
\<close>

record request =
  req_method :: string
  pathname :: string
  range_query :: "string option"
  origin :: "string option"
  host :: "string option"

definition localHosts :: "string list" where
  "localHosts = [''localhost'', ''127.0.0.1'', ''::1'', ''[::1]'']"

text \<open>\<^verbatim>\<open>(req.headers.host || '').split(':')[0]\<close>: the header up to its first colon.\<close>

definition requestHost :: "request \<Rightarrow> string" where
  "requestHost req = takeWhile (\<lambda>c. c \<noteq> CHR '':'') (strOr (host req) [])"

text \<open>
  \<^verbatim>\<open>getAllowedOrigin\<close>. The URL parser belongs to the platform: \<open>urlHostname origin\<close> is
  the \<^verbatim>\<open>hostname\<close> of \<^verbatim>\<open>new URL(origin)\<close>, or \<open>None\<close> when the constructor throws.
\<close>

definition getAllowedOrigin :: "(string \<Rightarrow> string option) \<Rightarrow> request \<Rightarrow> string option" where
  "getAllowedOrigin urlHostname req =
     (case truthyStr (origin req) of
        None \<Rightarrow> None
      | Some org \<Rightarrow>
          (case urlHostname org of
             None \<Rightarrow> None
           | Some hostname \<Rightarrow>
               if hostname \<in> set localHosts then Some org
               else if requestHost req \<noteq> [] \<and> hostname = requestHost req then Some org
               else None))"

text \<open>
  The host of a \<^verbatim>\<open>Host\<close> header as the header's grammar defines it (a name, an IPv4
  address or a bracketed IPv6 address, then an optional port). It follows the words of
  the specification, not the code, and serves to compare the two.
\<close>

definition hostnameOfHostHeader_spec :: "string \<Rightarrow> string" where
  "hostnameOfHostHeader_spec h =
     (case h of
        [] \<Rightarrow> []
      | c # cs \<Rightarrow>
          if c = CHR ''['' then takeWhile (\<lambda>c. c \<noteq> CHR '']'') h @ '']''
          else takeWhile (\<lambda>c. c \<noteq> CHR '':'') h)"

subsection \<open>The health check\<close>

text \<open>
  One entry of \<^verbatim>\<open>checks\<close>. The four entries carry different fields; a field the object
  does not have is \<open>None\<close>. \<^verbatim>\<open>lastSampleAgeSec\<close> can be present and \<^verbatim>\<open>null\<close>, which is
  \<open>Some None\<close>.
\<close>

record check =
  ok :: bool
  uptimeSeconds :: "int option"
  initialized :: "bool option"
  latencyMs :: "int option"
  hasData :: "bool option"
  lastSampleAgeSec :: "int option option"
  check_note :: "string option"
  check_error :: "string option"
  check_installed :: "bool option"
  optional :: "bool option"

definition emptyCheck :: check where
  "emptyCheck = \<lparr>ok = True, uptimeSeconds = None, initialized = None, latencyMs = None,
                  hasData = None, lastSampleAgeSec = None, check_note = None,
                  check_error = None, check_installed = None, optional = None\<rparr>"

record checks =
  api :: check
  database :: check
  glances :: check
  openclaw :: check

record health =
  health_status :: string
  health_timestamp :: int
  health_checks :: checks

text \<open>The readings of \<^verbatim>\<open>Date.now()\<close>, in the order in which the loader takes them.\<close>

record healthClock =
  dbStart :: int
  dbDone :: int
  dbAge :: int
  glancesStart :: int
  glancesDone :: int
  openclawStart :: int
  openclawDone :: int
  finished :: int

text \<open>\<^verbatim>\<open>haystack.includes(needle)\<close>.\<close>

fun str_includes :: "string \<Rightarrow> string \<Rightarrow> bool" where
  "str_includes [] needle = (needle = [])"
| "str_includes (c # cs) needle = (prefix needle (c # cs) \<or> str_includes cs needle)"

text \<open>
  The three probes of \<^verbatim>\<open>getHealthStatus\<close>. The database probe gets the outcome of the
  query for the newest timestamp of \<^verbatim>\<open>metrics\<close> (a row holds the timestamp, or \<^verbatim>\<open>null\<close>);
  it also says whether it degrades the overall status.
\<close>

definition databaseCheck :: "string + int option list \<Rightarrow> healthClock \<Rightarrow> check \<times> bool" where
  "databaseCheck dbRaw clk =
     (case queryDb dbRaw True of
        Inr rows \<Rightarrow>
          (let lastTs = (case rows of [] \<Rightarrow> None | r # _ \<Rightarrow> truthyNum r) in
           (emptyCheck\<lparr>ok := True,
              latencyMs := Some (dbDone clk - dbStart clk),
              hasData := Some (length rows > 0),
              lastSampleAgeSec :=
                Some (map_option (\<lambda>ts. max 0 (dbAge clk div 1000 - ts)) lastTs)\<rparr>,
            False))
      | Inl errorText \<Rightarrow>
          if str_includes errorText ''no such table: metrics''
          then (emptyCheck\<lparr>ok := True,
                  initialized := Some False,
                  latencyMs := Some (dbDone clk - dbStart clk),
                  hasData := Some False,
                  check_note := Some ''collector not initialized yet''\<rparr>,
                False)
          else (emptyCheck\<lparr>ok := False,
                  latencyMs := Some (dbDone clk - dbStart clk),
                  check_error := Some errorText\<rparr>,
                True))"

definition glancesCheck :: "string + unit \<Rightarrow> healthClock \<Rightarrow> check \<times> bool" where
  "glancesCheck glancesRaw clk =
     (case glancesRaw of
        Inr u \<Rightarrow>
          (emptyCheck\<lparr>ok := True, latencyMs := Some (glancesDone clk - glancesStart clk)\<rparr>,
           False)
      | Inl e \<Rightarrow>
          (emptyCheck\<lparr>ok := False, latencyMs := Some (glancesDone clk - glancesStart clk),
             check_error := Some e\<rparr>,
           True))"

definition openclawCheck :: "string option \<Rightarrow> string + unit \<Rightarrow> healthClock \<Rightarrow> check \<times> bool" where
  "openclawCheck openclawPath statusRaw clk =
     (case openclawPath of
        None \<Rightarrow>
          (emptyCheck\<lparr>ok := True, check_installed := Some False, optional := Some True,
             latencyMs := Some (openclawDone clk - openclawStart clk)\<rparr>,
           False)
      | Some path \<Rightarrow>
          (case statusRaw of
             Inr u \<Rightarrow>
               (emptyCheck\<lparr>ok := True, check_installed := Some True,
                  latencyMs := Some (openclawDone clk - openclawStart clk)\<rparr>,
                False)
           | Inl e \<Rightarrow>
               (emptyCheck\<lparr>ok := False, check_installed := Some True,
                  latencyMs := Some (openclawDone clk - openclawStart clk),
                  check_error := Some e\<rparr>,
                True)))"

text \<open>
  The loader of \<^verbatim>\<open>getHealthStatus\<close>: \<^verbatim>\<open>degraded\<close> starts \<^verbatim>\<open>false\<close> and each probe may set
  it. Every \<^verbatim>\<open>await\<close> that can reject stands in a \<^verbatim>\<open>try\<close>, and \<^verbatim>\<open>getOpenclawPath()\<close>
  never rejects, so the loader always returns.
\<close>

definition getHealthStatus ::
  "int \<Rightarrow> string + int option list \<Rightarrow> string + unit \<Rightarrow> string option \<Rightarrow> string + unit
     \<Rightarrow> healthClock \<Rightarrow> health" where
  "getHealthStatus uptime dbRaw glancesRaw openclawPath statusRaw clk =
     (let (db, degraded1) = databaseCheck dbRaw clk;
          (gl, degraded2) = glancesCheck glancesRaw clk;
          (oc, degraded3) = openclawCheck openclawPath statusRaw clk;
          degraded = (degraded1 \<or> degraded2 \<or> degraded3)
      in \<lparr>health_status = (if degraded then ''degraded'' else ''ok''),
          health_timestamp = finished clk,
          health_checks =
            \<lparr>api = emptyCheck\<lparr>ok := True, uptimeSeconds := Some uptime\<rparr>,
             database = db, glances = gl, openclaw = oc\<rparr>\<rparr>)"

subsection \<open>The HTTP front door\<close>

datatype 'a body =
    NoBody
  | ErrorBody string
  | ErrorDetailBody string string
  | Json 'a
  | Verbatim string

record 'a response =
  statusCode :: nat
  headers :: "(string \<times> string) list"
  body :: "'a body"

text \<open>
  \<^verbatim>\<open>sendJson\<close>, on top of the headers that \<^verbatim>\<open>res.setHeader\<close> has set before.
\<close>

definition sendJson :: "(string \<times> string) list \<Rightarrow> nat \<Rightarrow> 'a body \<Rightarrow> 'a response" where
  "sendJson hdrs code payload =
     \<lparr>statusCode = code,
      headers = hdrs @ [(''Content-Type'', ''application/json; charset=utf-8'')],
      body = payload\<rparr>"

definition corsHeaders :: "string option \<Rightarrow> (string \<times> string) list" where
  "corsHeaders allowedOrigin =
     (case allowedOrigin of
        Some org \<Rightarrow> [(''Access-Control-Allow-Origin'', org), (''Vary'', ''Origin'')]
      | None \<Rightarrow> [])
     @ [(''Access-Control-Allow-Methods'', ''GET, OPTIONS''),
        (''Access-Control-Allow-Headers'', ''Content-Type'')]"

text \<open>The path table: every resource answers at a bare path and under \<^verbatim>\<open>/api\<close>.\<close>

datatype resource =
    Openclaw
  | OpenclawHistory
  | History string
  | Cron
  | Tokens
  | Connections
  | Quote
  | Processes
  | Health

definition resourceOf :: "request \<Rightarrow> resource option" where
  "resourceOf req =
     (let p = pathname req in
      if p = ''/openclaw'' \<or> p = ''/api/openclaw'' then Some Openclaw
      else if p = ''/openclaw/history'' \<or> p = ''/api/openclaw/history'' then Some OpenclawHistory
      else if p = ''/history'' \<or> p = ''/api/history'' then Some (History (rangeParam (range_query req)))
      else if p = ''/cron'' \<or> p = ''/api/cron'' then Some Cron
      else if p = ''/tokens'' \<or> p = ''/api/tokens'' then Some Tokens
      else if p = ''/connections'' \<or> p = ''/api/connections'' then Some Connections
      else if p = ''/quote'' \<or> p = ''/api/quote'' then Some Quote
      else if p = ''/processes'' \<or> p = ''/api/processes'' then Some Processes
      else if p = ''/health'' \<or> p = ''/api/health'' then Some Health
      else None)"

text \<open>\<^verbatim>\<open>glancesPath\<close>: the rest of the path behind one of the two proxy prefixes.\<close>

definition glancesPath :: "string \<Rightarrow> string option" where
  "glancesPath p =
     (if prefix ''/api/glances/'' p then Some (drop (length ''/api/glances/'') p)
      else if prefix ''/glances/'' p then Some (drop (length ''/glances/'') p)
      else None)"

text \<open>
  The request listener. \<open>proxy\<close> is the answer of \<^verbatim>\<open>proxyGlancesEndpoint\<close> (status, content
  type and body) and \<open>handle\<close> the awaited outcome of the aggregation behind a resource,
  as the JSON payload it sends; \<open>Inl\<close> is an exception, which the listener turns into
  the 500 envelope.
\<close>

definition server ::
  "(string \<Rightarrow> string option) \<Rightarrow> (string \<Rightarrow> nat \<times> string \<times> 'a body) \<Rightarrow> (resource \<Rightarrow> string + 'a)
     \<Rightarrow> request \<Rightarrow> 'a response" where
  "server urlHostname proxy handle req =
     (let allowedOrigin = getAllowedOrigin urlHostname req;
          hdrs = corsHeaders allowedOrigin
      in if req_method req = ''OPTIONS''
         then \<lparr>statusCode = (if allowedOrigin \<noteq> None then 204 else 403), headers = hdrs,
               body = NoBody\<rparr>
         else if req_method req \<noteq> ''GET''
         then sendJson hdrs 405 (ErrorBody ''Method not allowed'')
         else (case truthyStr (glancesPath (pathname req)) of
                 Some endpoint \<Rightarrow>
                   (case proxy endpoint of
                      (code, contentType, payload) \<Rightarrow>
                        \<lparr>statusCode = code, headers = hdrs @ [(''Content-Type'', contentType)],
                         body = payload\<rparr>)
               | None \<Rightarrow>
                   (case resourceOf req of
                      None \<Rightarrow> sendJson hdrs 404 (ErrorBody ''Not found'')
                    | Some r \<Rightarrow>
                        (case handle r of
                           Inr payload \<Rightarrow> sendJson hdrs 200 (Json payload)
                         | Inl e \<Rightarrow>
                             sendJson hdrs 500 (ErrorDetailBody ''Internal server error'' e)))))"

section \<open>Properties\<close>

subsection \<open>The request-coalescing cache\<close>

lemma coalesced_empty: "coalesced emptyCache"
  by (simp add: coalesced_def emptyCache_def)

lemma coalesced_withCache:
  assumes "coalesced s"
  shows "coalesced (snd (withCache k ttlMs now allowStale s))"
proof (cases "freshValue (cacheStore s k) ttlMs now")
  case (Some v)
  then show ?thesis using assms by (simp add: withCache_def)
next
  case None
  show ?thesis
  proof (cases "prevInFlight (cacheStore s k)")
    case (Some p)
    then show ?thesis using assms None by (simp add: withCache_def)
  next
    case noflight: None
    have nf: "\<And>e. cacheStore s k = Some e \<Longrightarrow> inFlight e = None"
      using noflight by (simp add: prevInFlight_def)
    have lt: "\<And>p l. suspended s p = Some l \<Longrightarrow> p < nextPromise s"
      using assms by (simp add: coalesced_def)
    have nk: "\<And>p l. suspended s p = Some l \<Longrightarrow> loadKey l \<noteq> k"
      using assms nf unfolding coalesced_def by fastforce
    have fr: "\<And>ka e. cacheStore s ka = Some e \<Longrightarrow> inFlight e \<noteq> Some (nextPromise s)"
    proof
      fix ka e
      assume "cacheStore s ka = Some e" "inFlight e = Some (nextPromise s)"
      then obtain l where "suspended s (nextPromise s) = Some l"
        using assms unfolding coalesced_def by blast
      then show False using lt by blast
    qed
    show ?thesis
      using assms None noflight nk lt fr
      unfolding coalesced_def withCache_def Let_def
      by (auto simp: less_Suc_eq split: if_splits)
  qed
qed

lemma settle_shape:
  assumes "suspended s p = Some l"
  shows "\<exists>e. snd (settle p result now s)
               = s\<lparr>suspended := (suspended s)(p := None),
                   cacheStore := (cacheStore s)(loadKey l \<mapsto> e)\<rparr>
           \<and> inFlight e = None"
proof (cases result)
  case (Inr v)
  have "snd (settle p result now s)
        = s\<lparr>suspended := (suspended s)(p := None),
            cacheStore := (cacheStore s)
              (loadKey l \<mapsto> \<lparr>entry_value = v, timestamp = now, inFlight = None\<rparr>)\<rparr>"
    by (simp add: settle_def Let_def assms Inr)
  then show ?thesis
    by (intro exI [of _ "\<lparr>entry_value = v, timestamp = now, inFlight = None\<rparr>"]) simp
next
  case (Inl err)
  have "snd (settle p result now s)
        = s\<lparr>suspended := (suspended s)(p := None),
            cacheStore := (cacheStore s)
              (loadKey l \<mapsto> \<lparr>entry_value = prevValue (existing l),
                             timestamp = prevTimestamp (existing l), inFlight = None\<rparr>)\<rparr>"
    by (simp add: settle_def Let_def assms Inl)
  then show ?thesis
    by (intro exI [of _ "\<lparr>entry_value = prevValue (existing l),
                         timestamp = prevTimestamp (existing l), inFlight = None\<rparr>"]) simp
qed

lemma coalesced_settle:
  assumes "coalesced s"
  shows "coalesced (snd (settle p result now s))"
proof (cases "suspended s p")
  case None
  then show ?thesis using assms by (simp add: settle_def)
next
  case (Some l)
  have flight: "\<And>q l'. suspended s q = Some l' \<Longrightarrow>
      \<exists>e. cacheStore s (loadKey l') = Some e \<and> inFlight e = Some q"
    using assms unfolding coalesced_def by blast
  have other: "\<And>q l'. suspended s q = Some l' \<Longrightarrow> loadKey l' = loadKey l \<Longrightarrow> q = p"
  proof -
    fix q l'
    assume q: "suspended s q = Some l'" "loadKey l' = loadKey l"
    from flight [OF q(1)] flight [OF Some] q(2) have "Some q = Some p" by auto
    then show "q = p" by simp
  qed
  have own: "\<And>k e. cacheStore s k = Some e \<Longrightarrow> inFlight e = Some p \<Longrightarrow> k = loadKey l"
  proof -
    fix k e
    assume a: "cacheStore s k = Some e" "inFlight e = Some p"
    then obtain l' where "suspended s p = Some l'" "loadKey l' = k"
      using assms unfolding coalesced_def by blast
    then show "k = loadKey l" using Some by simp
  qed
  obtain e' where e': "inFlight e' = None"
    and eq: "snd (settle p result now s)
             = s\<lparr>suspended := (suspended s)(p := None),
                 cacheStore := (cacheStore s)(loadKey l \<mapsto> e')\<rparr>"
    using settle_shape [OF Some] by blast
  have one: "\<And>k e q. (if k = loadKey l then Some e' else cacheStore s k) = Some e
               \<Longrightarrow> inFlight e = Some q
               \<Longrightarrow> q \<noteq> p \<and> (\<exists>l'. suspended s q = Some l' \<and> loadKey l' = k)"
  proof -
    fix k e q
    assume a: "(if k = loadKey l then Some e' else cacheStore s k) = Some e" "inFlight e = Some q"
    then have k: "k \<noteq> loadKey l" using e' by (auto split: if_splits)
    then have c: "cacheStore s k = Some e" using a by simp
    have "q \<noteq> p" using own [OF c] a(2) k by blast
    moreover have "\<exists>l'. suspended s q = Some l' \<and> loadKey l' = k"
      using assms c a(2) unfolding coalesced_def by blast
    ultimately show "q \<noteq> p \<and> (\<exists>l'. suspended s q = Some l' \<and> loadKey l' = k)" by simp
  qed
  have two: "\<And>q l'. q \<noteq> p \<Longrightarrow> suspended s q = Some l'
               \<Longrightarrow> q < nextPromise s \<and> loadKey l' \<noteq> loadKey l
                 \<and> (\<exists>e. cacheStore s (loadKey l') = Some e \<and> inFlight e = Some q)"
    using assms other unfolding coalesced_def by blast
  show ?thesis
    unfolding eq coalesced_def
  proof (intro conjI allI impI)
    fix k e q
    assume "cacheStore (s\<lparr>suspended := (suspended s)(p := None),
                 cacheStore := (cacheStore s)(loadKey l \<mapsto> e')\<rparr>) k = Some e
            \<and> inFlight e = Some q"
    then have "(if k = loadKey l then Some e' else cacheStore s k) = Some e" "inFlight e = Some q"
      by (simp_all add: fun_upd_def)
    from one [OF this]
    show "\<exists>l'. suspended (s\<lparr>suspended := (suspended s)(p := None),
                 cacheStore := (cacheStore s)(loadKey l \<mapsto> e')\<rparr>) q = Some l' \<and> loadKey l' = k"
      by simp
  next
    fix q l'
    assume "suspended (s\<lparr>suspended := (suspended s)(p := None),
                 cacheStore := (cacheStore s)(loadKey l \<mapsto> e')\<rparr>) q = Some l'"
    then have q: "q \<noteq> p" "suspended s q = Some l'" by (auto split: if_splits)
    from two [OF q]
    show "q < nextPromise (s\<lparr>suspended := (suspended s)(p := None),
                 cacheStore := (cacheStore s)(loadKey l \<mapsto> e')\<rparr>)"
      by simp
    from two [OF q]
    show "\<exists>e. cacheStore (s\<lparr>suspended := (suspended s)(p := None),
                 cacheStore := (cacheStore s)(loadKey l \<mapsto> e')\<rparr>) (loadKey l') = Some e
              \<and> inFlight e = Some q"
      by simp
  qed
qed

lemma coalesced_step: "coalesced s \<Longrightarrow> coalesced (step e s)"
  by (cases e) (simp_all add: coalesced_withCache coalesced_settle)

lemma coalesced_run: "coalesced s \<Longrightarrow> coalesced (run evs s)"
  unfolding run_def by (induction evs arbitrary: s) (simp_all add: coalesced_step)


lemma inWindow_withCache:
  assumes "inWindow k p l e c s"
  shows "inWindow k p l e c (snd (withCache k' ttlMs now allowStale s))"
proof -
  have inv: "coalesced (snd (withCache k' ttlMs now allowStale s))"
    using assms by (simp add: inWindow_def coalesced_withCache)
  have lt: "p < nextPromise s"
    using assms unfolding inWindow_def coalesced_def by blast
  show ?thesis
  proof (cases "k' = k")
    case True
    then have "snd (withCache k' ttlMs now allowStale s) = s"
      using assms by (auto simp: inWindow_def withCache_def Let_def prevInFlight_def split: option.splits)
    then show ?thesis using assms by simp
  next
    case False
    then show ?thesis
      using assms lt inv
      by (auto simp: inWindow_def withCache_def Let_def split: option.splits)
  qed
qed

lemma inWindow_settle:
  assumes "inWindow k p l e c s" and "q \<noteq> p"
  shows "inWindow k p l e c (snd (settle q result now s))"
proof (cases "suspended s q")
  case None
  then show ?thesis using assms by (simp add: settle_def)
next
  case (Some l')
  have inv: "coalesced (snd (settle q result now s))"
    using assms by (simp add: inWindow_def coalesced_settle)
  have "\<exists>e'. cacheStore s (loadKey l') = Some e' \<and> inFlight e' = Some q"
    using assms Some unfolding inWindow_def coalesced_def by blast
  then have key: "loadKey l' \<noteq> k"
    using assms by (auto simp: inWindow_def)
  obtain e' where
    "snd (settle q result now s)
       = s\<lparr>suspended := (suspended s)(q := None),
           cacheStore := (cacheStore s)(loadKey l' \<mapsto> e')\<rparr>"
    using settle_shape [OF Some] by blast
  then show ?thesis
    using assms key inv by (simp add: inWindow_def)
qed

lemma inWindow_step:
  "inWindow k p l e c s \<Longrightarrow> \<not> settles p ev \<Longrightarrow> inWindow k p l e c (step ev s)"
  by (cases ev) (simp_all add: inWindow_withCache inWindow_settle)

lemma inWindow_run:
  "inWindow k p l e c s \<Longrightarrow> \<forall>ev\<in>set evs. \<not> settles p ev \<Longrightarrow> inWindow k p l e c (run evs s)"
  unfolding run_def by (induction evs arbitrary: s) (simp_all add: inWindow_step)

lemma inWindow_start:
  assumes "coalesced s" and "withCache k ttlMs now allowStale s = (Awaits p, s')"
    and "suspended s p = None"
  shows "inWindow k p \<lparr>loadKey = k, existing = cacheStore s k, allowStaleOnError = allowStale\<rparr>
           \<lparr>entry_value = prevValue (cacheStore s k), timestamp = prevTimestamp (cacheStore s k),
            inFlight = Some p\<rparr>
           (Suc (count_list (loaderCalls s) k)) s'
         \<and> freshValue (cacheStore s k) ttlMs now = None"
proof -
  have fresh: "freshValue (cacheStore s k) ttlMs now = None"
    using assms(2) by (auto simp: withCache_def Let_def split: option.splits)
  have noflight: "prevInFlight (cacheStore s k) = None"
  proof (cases "prevInFlight (cacheStore s k)")
    case (Some q)
    then have "q = p" using assms(2) fresh by (simp add: withCache_def)
    moreover have "\<exists>l. suspended s q = Some l"
    proof -
      from Some obtain e where "cacheStore s k = Some e" "inFlight e = Some q"
        by (auto simp: prevInFlight_def split: option.splits)
      then show ?thesis using assms(1) unfolding coalesced_def by blast
    qed
    ultimately show ?thesis using assms(3) by simp
  qed simp
  have inv: "coalesced s'"
    using coalesced_withCache [OF assms(1), of k ttlMs now allowStale] assms(2) by simp
  show ?thesis
    using assms(2) fresh noflight inv
    by (auto simp: inWindow_def withCache_def Let_def)
qed

lemma stale_stays_stale:
  assumes "freshValue ex ttlMs now = None" and "ttlMs' \<le> ttlMs" and "now \<le> now'"
  shows "freshValue (Some \<lparr>entry_value = prevValue ex, timestamp = prevTimestamp ex, inFlight = f\<rparr>)
           ttlMs' now' = None"
  using assms
  by (auto simp: freshValue_def prevValue_def prevTimestamp_def split: option.splits if_splits)

lemmas cache_eval =
  run_def emptyCache_def withCache_def settle_def freshValue_def prevValue_def
  prevTimestamp_def prevInFlight_def Let_def




text \<open>
  C2 (as amended). When the loader of a load for key \<open>k\<close> fails: if
  \<^verbatim>\<open>allowStaleOnError\<close> is set and a previous value exists, the load's promise is
  fulfilled with the previous value and the error is suppressed; otherwise the promise
  is rejected with the loader's error. In both cases the entry keeps the previous value
  and the previous timestamp (the freshness window is not extended), so a later call
  that uses the same time to live, or a shorter one, misses again and invokes the loader
  once more instead of waiting out a full time to live.
\<close>

theorem withCache_loader_failure:
  assumes "s0 = run before emptyCache"
    and "withCache k ttlMs now allowStale s0 = (Awaits p, s1)"
    and "suspended s0 p = None"
    and "\<forall>ev\<in>set evs. \<not> settles p ev"
    and "s2 = run evs s1"
    and "settle p (Inl err) failedAt s2 = (res, s3)"
  shows "(allowStale \<and> prevValue (cacheStore s0 k) \<noteq> None
            \<longrightarrow> res = Some (Inr (prevValue (cacheStore s0 k))))
       \<and> (\<not> (allowStale \<and> prevValue (cacheStore s0 k) \<noteq> None) \<longrightarrow> res = Some (Inl err))
       \<and> cacheStore s3 k = Some \<lparr>entry_value = prevValue (cacheStore s0 k),
                                  timestamp = prevTimestamp (cacheStore s0 k), inFlight = None\<rparr>
       \<and> (\<forall>ttlMs' now' allowStale'. ttlMs' \<le> ttlMs \<and> now \<le> now'
            \<longrightarrow> fst (withCache k ttlMs' now' allowStale' s3) = Awaits (nextPromise s3)
              \<and> loaderCalls (snd (withCache k ttlMs' now' allowStale' s3)) = loaderCalls s3 @ [k])"
proof -
  let ?l = "\<lparr>loadKey = k, existing = cacheStore s0 k, allowStaleOnError = allowStale\<rparr>"
  let ?e = "\<lparr>entry_value = prevValue (cacheStore s0 k), timestamp = prevTimestamp (cacheStore s0 k),
            inFlight = Some p\<rparr>"
  let ?d = "\<lparr>entry_value = prevValue (cacheStore s0 k), timestamp = prevTimestamp (cacheStore s0 k),
            inFlight = None\<rparr>"
  have inv0: "coalesced s0"
    using assms(1) by (simp add: coalesced_run coalesced_empty)
  from inWindow_start [OF inv0 assms(2,3)]
  have w1: "inWindow k p ?l ?e (Suc (count_list (loaderCalls s0) k)) s1"
    and stale: "freshValue (cacheStore s0 k) ttlMs now = None"
    by simp_all
  have "inWindow k p ?l ?e (Suc (count_list (loaderCalls s0) k)) s2"
    unfolding assms(5) by (rule inWindow_run [OF w1 assms(4)])
  then have load: "suspended s2 p = Some ?l"
    by (simp add: inWindow_def)
  have res: "res = (if allowStale \<and> prevValue (cacheStore s0 k) \<noteq> None
                    then Some (Inr (prevValue (cacheStore s0 k))) else Some (Inl err))"
    using assms(6) load by (auto simp: settle_def Let_def prevValue_def split: option.splits)
  have entry: "cacheStore s3 k = Some ?d"
    using assms(6) load by (auto simp: settle_def Let_def split: option.splits if_splits)
  have retry: "fst (withCache k ttlMs' now' allowStale' s3) = Awaits (nextPromise s3)
             \<and> loaderCalls (snd (withCache k ttlMs' now' allowStale' s3)) = loaderCalls s3 @ [k]"
    if "ttlMs' \<le> ttlMs" "now \<le> now'" for ttlMs' now' allowStale'
    using stale_stays_stale [OF stale that, of None] entry
    by (simp add: withCache_def prevInFlight_def Let_def)
  show ?thesis using res entry retry by simp
qed

theorem withCache_loader_failure_witness:
  "fst (settle 0 (Inl ''boom'') 150
          (run [Call ''openclaw-stats'' 10000 100 False, Call ''openclaw-stats'' 10000 120 False]
             (emptyCache :: nat cache))) = Some (Inl ''boom'')
   \<and> fst (withCache ''openclaw-stats'' 10000 160 False
          (snd (settle 0 (Inl ''boom'') 150
             (run [Call ''openclaw-stats'' 10000 100 False, Call ''openclaw-stats'' 10000 120 False]
                (emptyCache :: nat cache))))) = Awaits 1"
proof -
  define s0 :: "nat cache" where "s0 = run [] emptyCache"
  define s1 where "s1 = snd (withCache ''openclaw-stats'' 10000 100 False s0)"
  define evs :: "nat event list" where "evs = [Call ''openclaw-stats'' 10000 120 False]"
  define s2 where "s2 = run evs s1"
  define res where "res = fst (settle 0 (Inl ''boom'') 150 s2)"
  define s3 where "s3 = snd (settle 0 (Inl ''boom'') 150 s2)"
  have a2: "withCache ''openclaw-stats'' 10000 100 False s0 = (Awaits 0, s1)"
    by (simp add: s1_def s0_def cache_eval)
  have a3: "suspended s0 0 = None"
    by (simp add: s0_def cache_eval)
  have a4: "\<forall>ev\<in>set evs. \<not> settles 0 ev"
    by (simp add: evs_def)
  have a6: "settle 0 (Inl ''boom'') 150 s2 = (res, s3)"
    by (simp add: res_def s3_def)
  have eq: "run [Call ''openclaw-stats'' 10000 100 False, Call ''openclaw-stats'' 10000 120 False]
              emptyCache = s2"
    by (simp add: s2_def s1_def s0_def evs_def run_def)
  have nx: "nextPromise s3 = 1"
    by (simp add: s3_def s2_def s1_def s0_def evs_def cache_eval)
  have pv: "prevValue (cacheStore s0 ''openclaw-stats'') = None"
    by (simp add: s0_def cache_eval)
  from withCache_loader_failure [OF s0_def a2 a3 a4 s2_def a6]
  have "res = Some (Inl ''boom'')"
    and "fst (withCache ''openclaw-stats'' 10000 160 False s3) = Awaits (nextPromise s3)"
    using pv by simp_all
  then show ?thesis
    unfolding eq by (simp add: nx res_def [symmetric] s3_def [symmetric])
qed

theorem stale_value_not_refreshed_counterexample:
  "fst (settle 1 (Inl ''boom'') 20001
          (run [Call ''k'' 10000 0 True, Settle 0 (Inr (Some (7::nat))) 1000,
                Call ''k'' 10000 20000 True] emptyCache)) = Some (Inr (Some 7))
   \<and> cacheStore (snd (settle 1 (Inl ''boom'') 20001
          (run [Call ''k'' 10000 0 True, Settle 0 (Inr (Some (7::nat))) 1000,
                Call ''k'' 10000 20000 True] emptyCache))) ''k''
       = Some \<lparr>entry_value = Some 7, timestamp = 1000, inFlight = None\<rparr>
   \<and> fst (withCache ''k'' 10000 20002 True
          (snd (settle 1 (Inl ''boom'') 20001
             (run [Call ''k'' 10000 0 True, Settle 0 (Inr (Some (7::nat))) 1000,
                   Call ''k'' 10000 20000 True] emptyCache)))) = Awaits 2
   \<and> fst (withCache ''k'' 10000 20002 True
          (snd (settle 1 (Inl ''boom'') 20001
             (run [Call ''k'' 10000 0 True, Settle 0 (Inr (Some (7::nat))) 1000,
                   Call ''k'' 10000 20000 True] emptyCache)))) \<noteq> Returned 7"
  by (simp add: cache_eval)

subsection \<open>The 24 hour token delta\<close>

text \<open>
  C5. For every list of rows that the store returns for the last 24 hours, empty or
  not, the 24 hour computation returns the tokens of the last row minus the tokens of
  the first row, clamped below at 0, so the delta is never negative even when the
  counter was reset between samples; \<open>samples\<close> is the number of rows; and for no rows
  the result is exactly \<open>{tokens24h: 0, samples: 0}\<close>, without a history field.
\<close>

theorem get24HourTokens_delta:
  assumes "sqlite (now div 1000 - 86400) = Inr rows"
  shows "\<exists>r. get24HourTokens now sqlite = Inr r
           \<and> tokens24h r = (if rows = [] then 0
                            else max 0 (row_tokens (last rows) - row_tokens (hd rows)))
           \<and> 0 \<le> tokens24h r
           \<and> samples r = length rows
           \<and> (rows = [] \<longrightarrow> r = \<lparr>tokens24h = 0, samples = 0, history = None\<rparr>)
           \<and> (rows \<noteq> [] \<longrightarrow> history r = Some rows)"
  using assms by (cases rows) (simp_all add: get24HourTokens_def queryDb_def Let_def)

theorem get24HourTokens_delta_witness:
  "\<exists>r. get24HourTokens 1700000000000
          (\<lambda>since. Inr [\<lparr>row_timestamp = 1699990000, row_sessions = 2, row_tokens = 900\<rparr>,
                        \<lparr>row_timestamp = 1699995000, row_sessions = 1, row_tokens = 40\<rparr>]) = Inr r
       \<and> tokens24h r = 0 \<and> samples r = 2"
  using get24HourTokens_delta
    [of "\<lambda>since. Inr [\<lparr>row_timestamp = 1699990000, row_sessions = 2, row_tokens = 900\<rparr>,
                      \<lparr>row_timestamp = 1699995000, row_sessions = 1, row_tokens = 40\<rparr>]"
        1700000000000
        "[\<lparr>row_timestamp = 1699990000, row_sessions = 2, row_tokens = 900\<rparr>,
          \<lparr>row_timestamp = 1699995000, row_sessions = 1, row_tokens = 40\<rparr>]"]
  by auto

subsection \<open>The status handler\<close>

text \<open>
  C3. When the live call of the command line tool fails, the status handler answers
  with the last known snapshot held in memory, tagged \<open>status: 'down'\<close> and
  \<open>cached: true\<close>; if there is no snapshot, with the newest row of \<^verbatim>\<open>openclaw_stats\<close>
  that the store returns, tagged the same way; and if the store returns no row (or the
  query fails), with \<open>status: 'unknown'\<close> and \<open>installed\<close> equal to whether the probe for
  the executable found a path.
\<close>

theorem getOpenClawStats_fallback:
  assumes "statusRaw = Inl e"
  shows "(\<forall>known. lastKnown = Some known \<longrightarrow>
            getOpenClawStats lastKnown statusRaw stats24h latestRaw openclawPath now
              = (known\<lparr>status := ''down'', cached := Some True\<rparr>, lastKnown))
       \<and> (\<forall>lst rest. lastKnown = None \<and> latestRaw = Inr (lst # rest) \<longrightarrow>
            getOpenClawStats lastKnown statusRaw stats24h latestRaw openclawPath now
              = (\<lparr>installed = True, status = ''down'', sessions = Some (row_sessions lst),
                  tokens = Some (row_tokens lst), stats_tokens24h = Some (tokens24h stats24h),
                  lastUpdated = Some (row_timestamp lst * 1000),
                  model = None, contextUsed = None, contextTotal = None,
                  contextRemaining = None, memoryChunks = None, memoryFiles = None,
                  gatewayLatency = None, gatewayStatus = None, heartbeatInterval = None,
                  channels = None, cached = Some True, stats_error = None\<rparr>, None))
       \<and> (lastKnown = None \<and> (latestRaw = Inr [] \<or> (\<exists>err. latestRaw = Inl err)) \<longrightarrow>
            (let answer = fst (getOpenClawStats lastKnown statusRaw stats24h latestRaw
                                 openclawPath now)
             in status answer = ''unknown'' \<and> installed answer = (openclawPath \<noteq> None)
                \<and> cached answer = None \<and> stats_error answer = Some e))"
  using assms by (auto simp: getOpenClawStats_def queryDb_def Let_def)

theorem getOpenClawStats_fallback_witness:
  "status (fst (getOpenClawStats None (Inl ''openclaw not found'')
                  \<lparr>tokens24h = 0, samples = 0, history = None\<rparr> (Inr [])
                  (Some ''/usr/local/bin/openclaw'') 1700000000000)) = ''unknown''
   \<and> installed (fst (getOpenClawStats None (Inl ''openclaw not found'')
                  \<lparr>tokens24h = 0, samples = 0, history = None\<rparr> (Inr [])
                  (Some ''/usr/local/bin/openclaw'') 1700000000000))
   \<and> status (fst (getOpenClawStats None (Inl ''openclaw not found'')
                  \<lparr>tokens24h = 5, samples = 2, history = None\<rparr>
                  (Inr [\<lparr>row_timestamp = 1699990000, row_sessions = 2, row_tokens = 900\<rparr>])
                  None 1700000000000)) = ''down''"
  using getOpenClawStats_fallback
          [of "Inl ''openclaw not found''" "''openclaw not found''" None
              "\<lparr>tokens24h = 0, samples = 0, history = None\<rparr>" "Inr []"
              "Some ''/usr/local/bin/openclaw''" 1700000000000]
        getOpenClawStats_fallback
          [of "Inl ''openclaw not found''" "''openclaw not found''" None
              "\<lparr>tokens24h = 5, samples = 2, history = None\<rparr>"
              "Inr [\<lparr>row_timestamp = 1699990000, row_sessions = 2, row_tokens = 900\<rparr>]"
              None 1700000000000]
  by (simp add: Let_def)

subsection \<open>The history handler\<close>



text \<open>
  The older synchronous copy falls back to the same window but echoes the range it was
  given, so only the asynchronous server above returns the same \<open>range\<close> field.
\<close>

lemma getHistory_sync_echoes_range:
  "hist_range (getHistory_sync ''bogus'' now sqlite) = ''bogus''
   \<and> hist_range (getHistory_sync ''1h'' now sqlite) = ''1h''
   \<and> metrics (getHistory_sync ''bogus'' now sqlite) = metrics (getHistory_sync ''1h'' now sqlite)"
  by (simp add: getHistory_sync_def ranges_def objectPrototypeNames_def Let_def)

subsection \<open>The origin allow-list\<close>

text \<open>
  What the code does: the origin is allowed when it parses and its hostname is one of
  the local hosts or equals the \<^verbatim>\<open>Host\<close> header up to its first colon; the listener
  sends \<^verbatim>\<open>Access-Control-Allow-Origin\<close> with exactly the allowed origin, whatever the
  method and the path. For a \<^verbatim>\<open>Host\<close> header that names a host or an IPv4 address the
  text up to the first colon is the header's host.
\<close>

lemma getAllowedOrigin_iff:
  "getAllowedOrigin urlHostname req = Some org \<longleftrightarrow>
     origin req = Some org \<and> org \<noteq> []
     \<and> (\<exists>hostname. urlHostname org = Some hostname
           \<and> (hostname \<in> set localHosts
                \<or> requestHost req \<noteq> [] \<and> hostname = requestHost req))"
  by (auto simp: getAllowedOrigin_def truthyStr_def split: option.splits if_splits)

lemma cors_header_iff:
  "map_of (headers (server urlHostname proxy handle req)) ''Access-Control-Allow-Origin''
     = getAllowedOrigin urlHostname req"
  by (auto simp: server_def sendJson_def corsHeaders_def Let_def
           split: option.splits prod.splits sum.splits)

lemma requestHost_plain:
  assumes "host req = Some h" and "h \<noteq> []" and "hd h \<noteq> CHR ''[''"
  shows "requestHost req = hostnameOfHostHeader_spec h"
  using assms
  by (cases h) (auto simp: requestHost_def hostnameOfHostHeader_spec_def strOr_def truthyStr_def)

text \<open>
  C7 says that the header is sent exactly when the hostname of the origin is a loopback
  host or equals the hostname of the \<^verbatim>\<open>Host\<close> header. The code misses the case of an
  IPv6 \<^verbatim>\<open>Host\<close>: it cuts the header at its first colon, inside the brackets. A dashboard
  opened at \<^verbatim>\<open>http://[2001:db8::5]:8888\<close> calls the API at \<^verbatim>\<open>[2001:db8::5]:8889\<close>; the
  hostname of the origin, \<^verbatim>\<open>[2001:db8::5]\<close>, is the host of the \<^verbatim>\<open>Host\<close> header, and yet
  the origin is not allowed and no \<^verbatim>\<open>Access-Control-Allow-Origin\<close> header is sent.
\<close>

theorem getAllowedOrigin_ipv6_host:
  assumes "urlHostname ''http://[2001:db8::5]:8888'' = Some ''[2001:db8::5]''"
    and "origin req = Some ''http://[2001:db8::5]:8888''"
    and "host req = Some ''[2001:db8::5]:8889''"
  shows "hostnameOfHostHeader_spec ''[2001:db8::5]:8889'' = ''[2001:db8::5]''
       \<and> requestHost req = ''[2001''
       \<and> getAllowedOrigin urlHostname req = None
       \<and> map_of (headers (server urlHostname proxy handle req))
            ''Access-Control-Allow-Origin'' = None"
proof -
  have rh: "requestHost req = ''[2001''"
    using assms(3) by (simp add: requestHost_def strOr_def truthyStr_def)
  have no: "getAllowedOrigin urlHostname req = None"
    using assms(1,2) rh by (simp add: getAllowedOrigin_def truthyStr_def localHosts_def)
  have sp: "hostnameOfHostHeader_spec ''[2001:db8::5]:8889'' = ''[2001:db8::5]''"
    by (simp add: hostnameOfHostHeader_spec_def)
  show ?thesis using rh no sp by (simp add: cors_header_iff)
qed

theorem getAllowedOrigin_ipv6_host_witness:
  "getAllowedOrigin (\<lambda>u. if u = ''http://[2001:db8::5]:8888'' then Some ''[2001:db8::5]'' else None)
     \<lparr>req_method = ''GET'', pathname = ''/api/health'', range_query = None,
      origin = Some ''http://[2001:db8::5]:8888'', host = Some ''[2001:db8::5]:8889''\<rparr> = None
   \<and> map_of (headers (server
         (\<lambda>u. if u = ''http://[2001:db8::5]:8888'' then Some ''[2001:db8::5]'' else None)
         (\<lambda>endpoint. (404, ''application/json; charset=utf-8'', ErrorBody ''Glances endpoint not found''))
         (\<lambda>r. Inr ())
         \<lparr>req_method = ''GET'', pathname = ''/api/health'', range_query = None,
          origin = Some ''http://[2001:db8::5]:8888'', host = Some ''[2001:db8::5]:8889''\<rparr>))
       ''Access-Control-Allow-Origin'' = None"
proof -
  let ?parse = "\<lambda>u. if u = ''http://[2001:db8::5]:8888'' then Some ''[2001:db8::5]'' else None"
  let ?req = "\<lparr>req_method = ''GET'', pathname = ''/api/health'', range_query = None,
          origin = Some ''http://[2001:db8::5]:8888'', host = Some ''[2001:db8::5]:8889''\<rparr>"
  have a1: "?parse ''http://[2001:db8::5]:8888'' = Some ''[2001:db8::5]''" by simp
  have a2: "origin ?req = Some ''http://[2001:db8::5]:8888''" by simp
  have a3: "host ?req = Some ''[2001:db8::5]:8889''" by simp
  note th = getAllowedOrigin_ipv6_host
     [of ?parse ?req
         "\<lambda>endpoint. (404, ''application/json; charset=utf-8'', ErrorBody ''Glances endpoint not found'')"
         "\<lambda>r. Inr ()", OF a1 a2 a3]
  show ?thesis
    using th [THEN conjunct2, THEN conjunct2] .
qed

subsection \<open>The health check\<close>

text \<open>
  C8. When the \<^verbatim>\<open>metrics\<close> table is absent, the database check reports \<open>ok: true\<close> and
  \<open>initialized: false\<close>, and the overall status is decided by the other two checks alone:
  it is \<open>ok\<close> unless one of them fails. When the request to the metrics agent fails, or
  the command line tool is installed and its status call fails, the status is
  \<open>degraded\<close>. The health operation itself never fails: the front door answers
  \<^verbatim>\<open>/health\<close> and \<^verbatim>\<open>/api/health\<close> with status 200 and the health object.
\<close>

theorem getHealthStatus_degrades:
  assumes "h = getHealthStatus uptime dbRaw glancesRaw openclawPath statusRaw clk"
  shows "((\<exists>e. dbRaw = Inl e \<and> str_includes e ''no such table: metrics'') \<longrightarrow>
            ok (database (health_checks h))
          \<and> initialized (database (health_checks h)) = Some False
          \<and> (health_status h = ''degraded'' \<longleftrightarrow>
               (\<exists>e. glancesRaw = Inl e) \<or> (\<exists>p e. openclawPath = Some p \<and> statusRaw = Inl e))
          \<and> (health_status h = ''ok'' \<longleftrightarrow>
               \<not> ((\<exists>e. glancesRaw = Inl e) \<or> (\<exists>p e. openclawPath = Some p \<and> statusRaw = Inl e))))
       \<and> ((\<exists>e. glancesRaw = Inl e) \<longrightarrow>
            health_status h = ''degraded'' \<and> \<not> ok (glances (health_checks h)))
       \<and> ((\<exists>p e. openclawPath = Some p \<and> statusRaw = Inl e) \<longrightarrow>
            health_status h = ''degraded'' \<and> \<not> ok (openclaw (health_checks h)))
       \<and> (\<forall>urlHostname proxy handle req.
            handle Health = Inr h \<and> req_method req = ''GET''
            \<and> (pathname req = ''/health'' \<or> pathname req = ''/api/health'')
            \<longrightarrow> statusCode (server urlHostname proxy handle req) = 200
              \<and> body (server urlHostname proxy handle req) = Json h)"
proof -
  have db: "(\<exists>e. dbRaw = Inl e \<and> str_includes e ''no such table: metrics'') \<Longrightarrow>
            ok (fst (databaseCheck dbRaw clk))
            \<and> initialized (fst (databaseCheck dbRaw clk)) = Some False
            \<and> \<not> snd (databaseCheck dbRaw clk)"
    by (auto simp: databaseCheck_def queryDb_def emptyCheck_def)
  have gl: "snd (glancesCheck glancesRaw clk) = (\<exists>e. glancesRaw = Inl e)"
           "ok (fst (glancesCheck glancesRaw clk)) = (\<not> (\<exists>e. glancesRaw = Inl e))"
    by (cases glancesRaw; simp add: glancesCheck_def emptyCheck_def)+
  have oc: "snd (openclawCheck openclawPath statusRaw clk)
              = (\<exists>p e. openclawPath = Some p \<and> statusRaw = Inl e)"
           "ok (fst (openclawCheck openclawPath statusRaw clk))
              = (\<not> (\<exists>p e. openclawPath = Some p \<and> statusRaw = Inl e))"
    by (cases openclawPath; cases statusRaw; simp add: openclawCheck_def emptyCheck_def)+
  have st: "health_status h = ''degraded'' \<longleftrightarrow>
              snd (databaseCheck dbRaw clk) \<or> snd (glancesCheck glancesRaw clk)
              \<or> snd (openclawCheck openclawPath statusRaw clk)"
           "health_status h = ''ok'' \<longleftrightarrow>
              \<not> (snd (databaseCheck dbRaw clk) \<or> snd (glancesCheck glancesRaw clk)
              \<or> snd (openclawCheck openclawPath statusRaw clk))"
    unfolding assms getHealthStatus_def by (simp_all add: Let_def split: prod.splits)
  have ck: "database (health_checks h) = fst (databaseCheck dbRaw clk)"
           "glances (health_checks h) = fst (glancesCheck glancesRaw clk)"
           "openclaw (health_checks h) = fst (openclawCheck openclawPath statusRaw clk)"
    unfolding assms getHealthStatus_def by (simp_all add: Let_def split: prod.splits)
  have route: "statusCode (server urlHostname proxy handle req) = 200
               \<and> body (server urlHostname proxy handle req) = Json h"
    if "handle Health = Inr h" "req_method req = ''GET''"
       "pathname req = ''/health'' \<or> pathname req = ''/api/health''"
    for urlHostname :: "string \<Rightarrow> string option" and proxy :: "string \<Rightarrow> nat \<times> string \<times> health body"
      and handle req
    using that
    by (auto simp: server_def sendJson_def resourceOf_def glancesPath_def truthyStr_def Let_def)
  show ?thesis
    unfolding ck st gl oc using db route by blast
qed


theorem getHealthStatus_degrades_witness:
  "health_status (getHealthStatus 42 (Inl ''Error: no such table: metrics'') (Inr ()) None (Inr ())
      \<lparr>dbStart = 0, dbDone = 3, dbAge = 3, glancesStart = 3, glancesDone = 9,
       openclawStart = 9, openclawDone = 10, finished = 10\<rparr>) = ''ok''
   \<and> health_status (getHealthStatus 42 (Inr [Some 5]) (Inl ''fetch failed'') None (Inr ())
      \<lparr>dbStart = 0, dbDone = 3, dbAge = 3, glancesStart = 3, glancesDone = 9,
       openclawStart = 9, openclawDone = 10, finished = 10\<rparr>) = ''degraded''"
proof -
  let ?clk = "\<lparr>dbStart = 0, dbDone = 3, dbAge = 3, glancesStart = 3, glancesDone = 9,
       openclawStart = 9, openclawDone = 10, finished = 10\<rparr>"
  have inc: "str_includes ''Error: no such table: metrics'' ''no such table: metrics''"
    by simp
  note a = getHealthStatus_degrades
     [of "getHealthStatus 42 (Inl ''Error: no such table: metrics'') (Inr ()) None (Inr ()) ?clk"
         42 "Inl ''Error: no such table: metrics''" "Inr ()" None "Inr ()" ?clk, OF refl]
  note b = getHealthStatus_degrades
     [of "getHealthStatus 42 (Inr [Some 5]) (Inl ''fetch failed'') None (Inr ()) ?clk"
         42 "Inr [Some 5]" "Inl ''fetch failed''" None "Inr ()" ?clk, OF refl]
  have "health_status (getHealthStatus 42 (Inl ''Error: no such table: metrics'') (Inr ()) None
          (Inr ()) ?clk) = ''ok''"
    using a [THEN conjunct1] inc by simp
  moreover have "health_status (getHealthStatus 42 (Inr [Some 5]) (Inl ''fetch failed'') None
          (Inr ()) ?clk) = ''degraded''"
    using b [THEN conjunct2, THEN conjunct1] by simp
  ultimately show ?thesis by (rule conjI)
qed

subsection \<open>The HTTP front door\<close>




subsection \<open>Process insights\<close>

lemma avgMap_snoc:
  "avgMap (rows @ [row])
     = (avgMap rows)(avg_row_name row \<mapsto>
          \<lparr>hist_cpu = avg_row_cpu row, hist_ram = avg_row_ram row,
           hist_samples = avg_row_samples row\<rparr>)"
  by (simp add: avgMap_def)

lemma avgMap_none: "n \<notin> avg_row_name ` set rows \<Longrightarrow> avgMap rows n = None"
  by (induction rows rule: rev_induct) (simp_all add: avgMap_snoc, simp add: avgMap_def)


lemma toInsight_name: "name (toInsight m p) = proc_name p"
  by (simp add: toInsight_def Let_def split: option.splits)

lemma toInsight_anomaly:
  "anomaly (toInsight m p)
     = (case m (proc_name p) of
          None \<Rightarrow> None
        | Some h \<Rightarrow>
            if hist_cpu h > 1 \<and> proc_cpu p > hist_cpu h * 2 then Some ''cpu_high''
            else if hist_ram h > 50 \<and> proc_ram_mb p > hist_ram h * 1.5 then Some ''ram_high''
            else None)"
  by (simp add: toInsight_def Let_def split: option.splits)




lemma pushUnseen_length: "length (pushUnseen seen ps) \<le> length ps"
  by (induction seen ps rule: pushUnseen.induct) (auto simp: Let_def)

lemma pushUnseen_names:
  "distinct (map proc_name (pushUnseen seen ps))
   \<and> set (map proc_name (pushUnseen seen ps)) \<inter> set seen = {}"
  by (induction seen ps rule: pushUnseen.induct) (auto simp: Let_def)

lemma currentProcs_length: "length (currentProcs glancesRaw) \<le> 10"
proof (cases glancesRaw)
  case (Inl e)
  then show ?thesis by (simp add: currentProcs_def)
next
  case (Inr procs)
  have "length (currentProcs glancesRaw)
          \<le> length (take 10 (sort_key (\<lambda>p. - realOr (cpu_percent p) 0) procs))"
    unfolding currentProcs_def Inr sum.case by (rule pushUnseen_length)
  then show ?thesis by simp
qed

lemma currentProcs_distinct: "distinct (map proc_name (currentProcs glancesRaw))"
  by (cases glancesRaw) (simp_all add: currentProcs_def pushUnseen_names)

lemma flagged_toInsight: "flagged (toInsight m p) = (anomaly (toInsight m p) \<noteq> None)"
  by (simp add: flagged_def toInsight_anomaly truthyStr_def split: option.splits)

lemma filter_flagged_insights:
  "filter flagged (insights glancesRaw rows)
     = filter (\<lambda>i. anomaly i \<noteq> None) (insights glancesRaw rows)"
  unfolding insights_def by (rule filter_cong) (auto simp: flagged_toInsight)

text \<open>
  C10. In the result of the process insights, \<open>anomalies\<close> holds every computed insight
  whose anomaly is not null, in order, where the insights are computed for at most ten
  current processes with distinct names, and \<open>processes\<close> holds the first eight
  insights. So an entry can appear in \<open>anomalies\<close> and not in \<open>processes\<close>: with nine
  processes, of which the ninth by CPU is flagged, it does.
\<close>

theorem processes_and_anomalies:
  assumes "rows = (case avgRaw of Inl e \<Rightarrow> [] | Inr rows \<Rightarrow> rows)"
  shows "(\<exists>res. getProcessInsights glancesRaw avgRaw = Inr res
           \<and> processes res = take 8 (insights glancesRaw rows)
           \<and> anomalies res = filter (\<lambda>i. anomaly i \<noteq> None) (insights glancesRaw rows))
       \<and> length (insights glancesRaw rows) \<le> 10
       \<and> distinct (map name (insights glancesRaw rows))
       \<and> (\<exists>res. getProcessInsights
              (Inr (map (\<lambda>(n, c). \<lparr>glances_name = Some n, cpu_percent = Some c, rss = None\<rparr>)
                 [(''a'', 90), (''b'', 80), (''c'', 70), (''d'', 60), (''e'', 50), (''f'', 40),
                  (''g'', 30), (''h'', 20), (''i'', 10)]))
              (Inr [\<lparr>avg_row_name = ''i'', avg_row_cpu = 4, avg_row_ram = 0,
                     avg_row_samples = 6\<rparr>]) = Inr res
            \<and> anomalies res = [\<lparr>name = ''i'', cpu = 10, ram_mb = 0, avg_cpu = Some 4,
                                 avg_ram = Some 0, anomaly = Some ''cpu_high''\<rparr>]
            \<and> map name (processes res) = [''a'', ''b'', ''c'', ''d'', ''e'', ''f'', ''g'', ''h'']
            \<and> (\<exists>i\<in>set (anomalies res). i \<notin> set (processes res)))"
proof -
  have q: "queryDb avgRaw False = Inr rows"
    unfolding assms by (cases avgRaw) (simp_all add: queryDb_def)
  have a: "\<exists>res. getProcessInsights glancesRaw avgRaw = Inr res
           \<and> processes res = take 8 (insights glancesRaw rows)
           \<and> anomalies res = filter (\<lambda>i. anomaly i \<noteq> None) (insights glancesRaw rows)"
    by (simp add: getProcessInsights_def q Let_def filter_flagged_insights)
  have b: "length (insights glancesRaw rows) \<le> 10"
    by (simp add: insights_def currentProcs_length)
  have "map name (insights glancesRaw rows) = map proc_name (currentProcs glancesRaw)"
    by (simp add: insights_def toInsight_name)
  then have c: "distinct (map name (insights glancesRaw rows))"
    by (simp add: currentProcs_distinct)
  let ?g = "Inr (map (\<lambda>(n, c). \<lparr>glances_name = Some n, cpu_percent = Some c, rss = None\<rparr>)
                 [(''a'', 90), (''b'', 80), (''c'', 70), (''d'', 60), (''e'', 50), (''f'', 40),
                  (''g'', 30), (''h'', 20), (''i'', 10::real)])"
  let ?t = "[\<lparr>avg_row_name = ''i'', avg_row_cpu = 4, avg_row_ram = 0, avg_row_samples = 6\<rparr>]"
  have cp: "currentProcs ?g
      = map (\<lambda>(n, c). \<lparr>proc_name = n, proc_cpu = c, proc_ram_mb = 0\<rparr>)
          [(''a'', 90), (''b'', 80), (''c'', 70), (''d'', 60), (''e'', 50), (''f'', 40),
           (''g'', 30), (''h'', 20), (''i'', 10)]"
    by (simp add: currentProcs_def realOr_def strOr_def truthyStr_def)
  have ins: "insights ?g ?t
      = map (\<lambda>(n, c). \<lparr>name = n, cpu = c, ram_mb = 0, avg_cpu = None, avg_ram = None,
                        anomaly = None\<rparr>)
          [(''a'', 90), (''b'', 80), (''c'', 70), (''d'', 60), (''e'', 50), (''f'', 40),
           (''g'', 30), (''h'', 20)]
        @ [\<lparr>name = ''i'', cpu = 10, ram_mb = 0, avg_cpu = Some 4, avg_ram = Some 0,
            anomaly = Some ''cpu_high''\<rparr>]"
    unfolding insights_def cp by (simp add: avgMap_def toInsight_def mathRound_def)
  have d: "\<exists>res. getProcessInsights ?g (Inr ?t) = Inr res
            \<and> anomalies res = [\<lparr>name = ''i'', cpu = 10, ram_mb = 0, avg_cpu = Some 4,
                                 avg_ram = Some 0, anomaly = Some ''cpu_high''\<rparr>]
            \<and> map name (processes res) = [''a'', ''b'', ''c'', ''d'', ''e'', ''f'', ''g'', ''h'']
            \<and> (\<exists>i\<in>set (anomalies res). i \<notin> set (processes res))"
    unfolding getProcessInsights_def queryDb_def Let_def sum.case ins
    by (simp add: flagged_def truthyStr_def)
  show ?thesis using a b c d by blast
qed

theorem processes_and_anomalies_witness:
  "\<exists>res. getProcessInsights
      (Inr [\<lparr>glances_name = Some ''node'', cpu_percent = Some 10, rss = None\<rparr>])
      (Inl ''unable to open database file'') = Inr res
    \<and> processes res = [\<lparr>name = ''node'', cpu = 10, ram_mb = 0, avg_cpu = None, avg_ram = None,
                          anomaly = None\<rparr>]
    \<and> anomalies res = []"
proof -
  let ?g = "Inr [\<lparr>glances_name = Some ''node'', cpu_percent = Some 10, rss = None\<rparr>]"
  have r: "[] = (case (Inl ''unable to open database file'' :: string + avgRow list) of
                   Inl e \<Rightarrow> [] | Inr rows \<Rightarrow> rows)"
    by simp
  have ins: "insights ?g []
      = [\<lparr>name = ''node'', cpu = 10, ram_mb = 0, avg_cpu = None, avg_ram = None, anomaly = None\<rparr>]"
    by (simp add: insights_def currentProcs_def realOr_def strOr_def truthyStr_def avgMap_def
          toInsight_def mathRound_def)
  from processes_and_anomalies [OF r, of ?g, THEN conjunct1]
  show ?thesis by (simp add: ins)
qed

end
